theory Spec2Isabelle
  imports Complex_Main "HOL-Library.Log_Nat"
begin

section \<open>Python values used by the service\<close>

subsection \<open>Floats\<close>

text \<open>
  A Python \<open>float\<close> is an IEEE-754 binary64 value: a finite number, one of the two
  infinities, or NaN. A finite value is carried as the rational it denotes (every double
  is a dyadic rational); the sign of zero is not distinguished. The form fields of the
  route are parsed into such values, so all of them can occur as inputs.
\<close>

datatype pyfloat = Finite rat | PosInf | NegInf | NaN

text \<open>
  The comparison operators of \<open>float\<close>. Every comparison with NaN is false; a Python
  \<open>int\<close> operand is compared by its exact value (\<open>py_int\<close>).
\<close>

fun f_le :: "pyfloat \<Rightarrow> pyfloat \<Rightarrow> bool" where
  "f_le NaN y = False"
| "f_le x NaN = False"
| "f_le NegInf y = True"
| "f_le x PosInf = True"
| "f_le (Finite a) (Finite b) = (a \<le> b)"
| "f_le PosInf y = False"
| "f_le x NegInf = False"

fun f_lt :: "pyfloat \<Rightarrow> pyfloat \<Rightarrow> bool" where
  "f_lt NaN y = False"
| "f_lt x NaN = False"
| "f_lt PosInf y = False"
| "f_lt x NegInf = False"
| "f_lt (Finite a) (Finite b) = (a < b)"
| "f_lt NegInf y = True"
| "f_lt x PosInf = True"

definition f_ge :: "pyfloat \<Rightarrow> pyfloat \<Rightarrow> bool" where
  "f_ge x y = f_le y x"

definition py_int :: "int \<Rightarrow> pyfloat" where
  "py_int n = Finite (of_int n)"

subsection \<open>Exceptions\<close>

text \<open>
  A raised exception is a value: a computation returns \<open>Inl e\<close> where the Python raises
  \<open>e\<close>. The first five are the built-in exceptions the operations below can raise.
  \<open>InvalidInputError\<close> and \<open>ConfigurationError\<close> are the two names of the
  specification's error taxonomy; no statement of the source raises them.
\<close>

datatype py_error =
    ZeroDivisionError | IndexError | KeyError | OverflowError | ValueError
  | InvalidInputError | ConfigurationError

subsection \<open>Lists and dictionaries\<close>

text \<open>
  \<open>xs[i]\<close> on a list: an index below zero counts from the end, and an index that is
  still out of range raises \<open>IndexError\<close>.
\<close>

definition list_getitem :: "'a list \<Rightarrow> int \<Rightarrow> py_error + 'a" where
  "list_getitem xs i =
     (if 0 \<le> i \<and> i < int (length xs) then Inr (xs ! nat i)
      else if i < 0 \<and> - int (length xs) \<le> i then Inr (xs ! nat (int (length xs) + i))
      else Inl IndexError)"

text \<open>
  \<open>d[k]\<close> on a dictionary written as a literal with pairwise different keys, kept as the
  list of its items; a missing key raises \<open>KeyError\<close>.
\<close>

definition dict_getitem :: "('k \<times> 'v) list \<Rightarrow> 'k \<Rightarrow> py_error + 'v" where
  "dict_getitem d k = (case map_of d k of None \<Rightarrow> Inl KeyError | Some v \<Rightarrow> Inr v)"

subsection \<open>Text\<close>

text \<open>
  A \<open>str\<close> is kept as its UTF-8 encoding. The advisory texts are ASCII but for three
  symbols: superscript minus followed by superscript one (U+207B, U+00B9), the em dash
  (U+2014) and the en dash (U+2013).
\<close>

definition sup_minus_one :: string where
  "sup_minus_one = [CHR 0xE2, CHR 0x81, CHR 0xBB, CHR 0xC2, CHR 0xB9]"

definition em_dash :: string where
  "em_dash = [CHR 0xE2, CHR 0x80, CHR 0x94]"

definition en_dash :: string where
  "en_dash = [CHR 0xE2, CHR 0x80, CHR 0x93]"

subsection \<open>Float arithmetic\<close>

text \<open>
  Rounding a rational to the nearest integer, ties to the even one: the rounding of
  IEEE-754 arithmetic, of CPython's decimal conversions and of \<open>round\<close> on a float.
\<close>

definition round_half_even :: "rat \<Rightarrow> int" where
  "round_half_even x =
     (let n = \<lfloor>x\<rfloor>; r = x - of_int n
      in if r < 1 / 2 then n else if 1 / 2 < r then n + 1 else if even n then n else n + 1)"

text \<open>
  \<open>ilog2 x\<close> is the binary exponent of a positive rational: the \<open>k\<close> with
  \<open>2 ^ k \<le> x < 2 ^ (k + 1)\<close>, computed from the bit lengths of numerator and
  denominator.
\<close>

definition ilog2 :: "rat \<Rightarrow> int" where
  "ilog2 x =
     (case quotient_of x of
        (p, q) \<Rightarrow> let d = bitlen p - bitlen q in if 2 powi d \<le> x then d else d - 1)"

text \<open>
  \<open>to_double x\<close> is the binary64 value nearest to \<open>x\<close>, ties to even: 53 significant
  bits, and below the normal range (exponent less than \<open>-1022\<close>) the fixed spacing
  \<open>2 ^ -1074\<close> of the subnormal numbers. The exponent is not bounded above here;
  \<open>double_of\<close> turns a result of magnitude \<open>2 ^ 1024\<close> or more into an infinity.
\<close>

definition to_double :: "rat \<Rightarrow> rat" where
  "to_double x =
     (if x = 0 then 0
      else let e = max (ilog2 \<bar>x\<bar> - 52) (- 1074)
           in of_int (round_half_even (x / 2 powi e)) * 2 powi e)"

definition double_of :: "rat \<Rightarrow> pyfloat" where
  "double_of x =
     (let y = to_double x
      in if 2 ^ 1024 \<le> y then PosInf else if y \<le> - (2 ^ 1024) then NegInf else Finite y)"

text \<open>
  \<open>a / b\<close> on two \<open>int\<close>s: the correctly rounded quotient.
\<close>

definition py_truediv :: "int \<Rightarrow> int \<Rightarrow> py_error + pyfloat" where
  "py_truediv a b =
     (if b = 0 then Inl ZeroDivisionError
      else case double_of (of_int a / of_int b) of
             Finite q \<Rightarrow> Inr (Finite q)
           | _ \<Rightarrow> Inl OverflowError)"

text \<open>
  \<open>x * y\<close> on two floats.
\<close>

fun f_mul :: "pyfloat \<Rightarrow> pyfloat \<Rightarrow> pyfloat" where
  "f_mul NaN y = NaN"
| "f_mul x NaN = NaN"
| "f_mul (Finite a) (Finite b) = double_of (a * b)"
| "f_mul (Finite a) PosInf = (if a = 0 then NaN else if 0 < a then PosInf else NegInf)"
| "f_mul (Finite a) NegInf = (if a = 0 then NaN else if 0 < a then NegInf else PosInf)"
| "f_mul PosInf (Finite b) = (if b = 0 then NaN else if 0 < b then PosInf else NegInf)"
| "f_mul NegInf (Finite b) = (if b = 0 then NaN else if 0 < b then NegInf else PosInf)"
| "f_mul PosInf PosInf = PosInf"
| "f_mul PosInf NegInf = NegInf"
| "f_mul NegInf PosInf = NegInf"
| "f_mul NegInf NegInf = PosInf"

text \<open>
  \<open>round(x, 2)\<close> on a float: CPython rounds the exact value of \<open>x\<close> to two decimal
  places, ties to even, and returns the double nearest to that decimal; infinities and
  NaN come back unchanged.
\<close>

fun py_round_2 :: "pyfloat \<Rightarrow> pyfloat" where
  "py_round_2 (Finite x) = double_of (of_int (round_half_even (x * 100)) / 100)"
| "py_round_2 x = x"

text \<open>
  \<open>round(x)\<close> on a float: the nearest \<open>int\<close>, ties to even; NaN raises
  \<open>ValueError\<close> and an infinity \<open>OverflowError\<close>.
\<close>

fun py_round :: "pyfloat \<Rightarrow> py_error + int" where
  "py_round (Finite x) = Inr (round_half_even x)"
| "py_round NaN = Inl ValueError"
| "py_round x = Inl OverflowError"

section \<open>services/rule_service.py\<close>

subsection \<open>Weather-risk classifier\<close>

text \<open>
  \<open>_weather_risk(temp, rh, wet)\<close>. The chained comparison \<open>25 <= temp <= 30\<close> is the
  conjunction of its two halves.
\<close>

definition weather_risk :: "pyfloat \<Rightarrow> pyfloat \<Rightarrow> pyfloat \<Rightarrow> string" where
  "weather_risk temp rh wet =
     (let high_classic = (f_le (py_int 25) temp \<and> f_le temp (py_int 30)
                          \<and> f_ge rh (py_int 95) \<and> f_ge wet (py_int 12));
          high_rainsun = (f_le (py_int 22) temp \<and> f_le temp (py_int 30)
                          \<and> f_ge rh (py_int 95) \<and> f_ge wet (py_int 6))
      in if high_classic \<or> high_rainsun then ''High''
         else if f_lt temp (py_int 22) \<or> f_lt rh (py_int 85) \<or> f_lt wet (py_int 6) then ''Low''
         else ''Medium'')"


subsection \<open>Rule and info matrices\<close>

text \<open>
  The dictionary literals \<open>_RULE_MATRIX\<close> and \<open>_INFO_MATRIX\<close>, keyed by
  (severity label, risk label), entry by entry in the order of the source.
\<close>

definition RULE_MATRIX_literal :: "((string \<times> string) \<times> string) list" where
  "RULE_MATRIX_literal = [
    ((''Healthy'', ''Low''),
       ''1. Inspect a few trees every 5 days for new spots.\<newline>''
       @ ''2. Prune crossing shoots so air flows freely.\<newline>''
       @ ''3. Keep fertiliser balanced; avoid excess nitrogen.''),
    ((''Mild'', ''Low''),
       ''1. Pluck leaves with lesions and discard them far from the block.\<newline>''
       @ ''2. Disinfect pruning tools between trees.\<newline>''
       @ ''3. Give one coat of *non-systemic* copper or mancozeb (2 g L'' @ sup_minus_one @ '').\<newline>''
       @ ''4. Save systemic fungicides for later if pressure stays low.''),
    ((''Moderate'', ''Low''),
       ''1. Spot-spray copper oxychloride 2 g L'' @ sup_minus_one @ '' on clusters with lesions.\<newline>''
       @ ''2. Prune twigs with > 30 % infected leaves.\<newline>''
       @ ''3. Re-check in 3 days; if spots expand, move up to a systemic.\<newline>''
       @ ''4. Rotate fungicide group on the next spray.''),
    ((''Severe'', ''Low''),
       ''1. Remove heavily infected branches and *burn* them off-site.\<newline>''
       @ ''2. Spray azoxystrobin 0.2 mL L'' @ sup_minus_one @ '' + mancozeb 2 g L'' @ sup_minus_one @ '' over the canopy.\<newline>''
       @ ''3. Flag these trees for weekly follow-up.\<newline>''
       @ ''4. Seal big cuts with wound paint to block reinfection.''),
    ((''Healthy'', ''Medium''),
       ''1. Blanket-spray copper hydroxide 2 g L'' @ sup_minus_one @ ''.\<newline>''
       @ ''2. Thin the crowded interior so leaves dry faster.\<newline>''
       @ ''3. Book a second copper round in 12 days.''),
    ((''Mild'', ''Medium''),
       ''1. Collect and remove infected foliage.\<newline>''
       @ ''2. Spray chlorothalonil 3 g L'' @ sup_minus_one @ '' today.\<newline>''
       @ ''3. Follow with azoxystrobin 0.2 mL L'' @ sup_minus_one @ '' after 7 days.\<newline>''
       @ ''4. **Rotate** to a different fungicide class next spray.''),
    ((''Moderate'', ''Medium''),
       ''1. Mix tebuconazole 0.2 mL L'' @ sup_minus_one @ '' + mancozeb 2 g L'' @ sup_minus_one @ ''; spray to runoff.\<newline>''
       @ ''2. Prune and burn infected twigs.\<newline>''
       @ ''3. Repeat systemic in 7'' @ en_dash @ ''10 days if lesions stay active.\<newline>''
       @ ''4. Switch fungicide class at the next application.''),
    ((''Severe'', ''Medium''),
       ''1. Lop off fruiting twigs with lesions; burn them.\<newline>''
       @ ''2. Spray propiconazole 0.25 mL L'' @ sup_minus_one @ '' + mancozeb 2 g L'' @ sup_minus_one @ ''.\<newline>''
       @ ''3. Re-inspect in 5 days; keep rotating systemics until new growth is clean.\<newline>''
       @ ''4. Seal pruning wounds to stop fresh spores entering.''),
    ((''Healthy'', ''High''),
       ''1. Within 24 h spray copper oxychloride 2 g L'' @ sup_minus_one @ ''.\<newline>''
       @ ''2. Keep a 7-day copper schedule until weather calms.\<newline>''
       @ ''3. Improve drainage and avoid overhead irrigation.''),
    ((''Mild'', ''High''),
       ''1. Within 24 h spray azoxystrobin 0.2 mL L'' @ sup_minus_one @ '' + mancozeb 2 g L'' @ sup_minus_one @ ''.\<newline>''
       @ ''2. Remove reachable infected leaves only if canopy loss < 10 %.\<newline>''
       @ ''3. Check lesions every 3 days; keep a 7-day spray interval.\<newline>''
       @ ''4. Rotate fungicide class each cycle.''),
    ((''Moderate'', ''High''),
       ''1. Prune branches with heavy spotting before spraying.\<newline>''
       @ ''2. Within 24 h tank-mix azoxystrobin 0.2 mL L'' @ sup_minus_one @ '' + tebuconazole 0.25 mL L'' @ sup_minus_one @ '' + mancozeb 2 g L'' @ sup_minus_one @ ''.\<newline>''
       @ ''3. Spray every 5'' @ en_dash @ ''7 days until wetness hours drop below 6 h.\<newline>''
       @ ''4. Rotate fungicide class every round.''),
    ((''Severe'', ''High''),
       ''1. Quarantine the block'' @ em_dash @ ''essential staff only.\<newline>''
       @ ''2. Destroy the worst 30 % of foliage and burn it down-wind.\<newline>''
       @ ''3. Start a 3-spray rotation: day 0 difenoconazole 0.3 mL L'' @ sup_minus_one @ '' + chlorothalonil 3 g L'' @ sup_minus_one @ '';\<newline>''
       @ ''   day 5 propiconazole + mancozeb; day 10 repeat day 0 mix.\<newline>''
       @ ''4. Seal all pruning cuts with wound paint.\<newline>''
       @ ''5. Keep rotating fungicides every 5 days.'')]"

definition INFO_MATRIX_literal :: "((string \<times> string) \<times> string) list" where
  "INFO_MATRIX_literal = [
    ((''Healthy'', ''Low''),
       ''Cool, dry weather slows spores'' @ em_dash @ ''watchful waiting is enough.''),
    ((''Mild'', ''Low''),
       ''Early lesion removal cuts the spore load; non-systemic copper is gentle on soil life.''),
    ((''Moderate'', ''Low''),
       ''Copper shields the surface; pruning lowers inoculum; rotation avoids resistance.''),
    ((''Severe'', ''Low''),
       ''Systemic + protectant reaches hidden infections; wound paint blocks new entry points.''),
    ((''Healthy'', ''Medium''),
       ''Weather is turning friendly to the fungus; copper barrier stops spores from germinating.''),
    ((''Mild'', ''Medium''),
       ''Protectant cleans the leaf, systemic cures hidden spots; alternating classes prevents immunity.''),
    ((''Moderate'', ''Medium''),
       ''Mixed modes of action tackle established lesions; FRAC rotation keeps chemistry effective.''),
    ((''Severe'', ''Medium''),
       ''Heavy sanitation plus wound care remove reservoirs while rotating fungicides holds the line.''),
    ((''Healthy'', ''High''),
       ''Prolonged wet, humid spells are perfect for infection'' @ em_dash @ ''continuous copper barrier is vital.''),
    ((''Mild'', ''High''),
       ''Curative systemic freezes the fungus; protectant stops new spread; strict rotation fights resistance.''),
    ((''Moderate'', ''High''),
       ''Rapid spread needs multiple actives and short intervals; rotation + sanitation contain the 24-h threat.''),
    ((''Severe'', ''High''),
       ''When canopy infection meets perfect weather, only combined chemical, sanitation, and wound-sealing can salvage any yield.'')]"

subsection \<open>Module state\<close>

text \<open>
  The three module-level variables of \<open>rule_service\<close>. They are ordinary mutable
  Python objects, so the module is a state that every call receives and hands back;
  \<open>rule_service_module\<close> is that state as the module body leaves it after import.
\<close>

record rule_service =
  CLASS_LABELS :: "string list"
  RULE_MATRIX :: "((string \<times> string) \<times> string) list"
  INFO_MATRIX :: "((string \<times> string) \<times> string) list"

definition rule_service_module :: rule_service where
  "rule_service_module =
     \<lparr>CLASS_LABELS = [''Healthy'', ''Mild'', ''Moderate'', ''Severe''],
      RULE_MATRIX = RULE_MATRIX_literal,
      INFO_MATRIX = INFO_MATRIX_literal\<rparr>"

subsection \<open>Public API\<close>

text \<open>
  The dictionary \<open>get_recommendation\<close> returns, one field per key
  (\<open>rec_k\<close> for the key \<open>k\<close>).
\<close>

record recommendation =
  rec_severity_label :: string
  rec_weather_risk :: string
  rec_advice :: string
  rec_info :: string

text \<open>
  \<open>get_recommendation(severity_idx, humidity, temperature, wetness)\<close>, run in the module
  state \<open>g\<close>. The label lookup comes first, then the risk label, then the two table
  lookups in the order of the returned dictionary's items; the first one that raises
  ends the call. The body assigns to no module variable, so the state comes back as it
  was received.
\<close>

definition get_recommendation ::
  "rule_service \<Rightarrow> int \<Rightarrow> pyfloat \<Rightarrow> pyfloat \<Rightarrow> pyfloat
     \<Rightarrow> (py_error + recommendation) \<times> rule_service" where
  "get_recommendation g severity_idx hum temp wet =
     (case list_getitem (CLASS_LABELS g) severity_idx of
        Inl e \<Rightarrow> (Inl e, g)
      | Inr severity_label \<Rightarrow>
          (let risk_label = weather_risk temp hum wet in
           case dict_getitem (RULE_MATRIX g) (severity_label, risk_label) of
             Inl e \<Rightarrow> (Inl e, g)
           | Inr advice_text \<Rightarrow>
               (case dict_getitem (INFO_MATRIX g) (severity_label, risk_label) of
                  Inl e \<Rightarrow> (Inl e, g)
                | Inr info_text \<Rightarrow>
                    (Inr \<lparr>rec_severity_label = severity_label,
                          rec_weather_risk = risk_label,
                          rec_advice = advice_text,
                          rec_info = info_text\<rparr>, g))))"

section \<open>routes/core.py\<close>

subsection \<open>Constants\<close>

definition NUM_CLASSES :: int where
  "NUM_CLASSES = 4"

definition core_CLASS_LABELS :: "string list" where
  "core_CLASS_LABELS = [''Healthy'', ''Mild'', ''Moderate'', ''Severe'']"

definition MAX_SEVERITY_SCORE :: int where
  "MAX_SEVERITY_SCORE = NUM_CLASSES - 1"

subsection \<open>Per-image inference\<close>

text \<open>
  One entry of \<open>predictions\<close>, with the keys \<open>idx\<close>, \<open>severity\<close> and \<open>label\<close>.
\<close>

record prediction =
  pred_idx :: nat
  pred_severity :: int
  pred_label :: string

text \<open>
  The loop over \<open>enumerate(files)\<close>. The parameter \<open>classify\<close> is what the loop
  body computes from one upload before it looks the label up: reading the bytes,
  decoding and resizing the image, the forward pass of the loaded network and
  \<open>int(torch.argmax(...))\<close>. The loop state is \<open>predictions\<close> and \<open>severity_sum\<close>.
  Logging is left out.
\<close>

fun per_image_inference ::
  "('f \<Rightarrow> int) \<Rightarrow> (nat \<times> 'f) list \<Rightarrow> prediction list \<times> int
     \<Rightarrow> py_error + prediction list \<times> int" where
  "per_image_inference classify [] (predictions, severity_sum) =
     Inr (predictions, severity_sum)"
| "per_image_inference classify ((idx, file) # rest) (predictions, severity_sum) =
     (let severity = classify file in
      case list_getitem core_CLASS_LABELS severity of
        Inl e \<Rightarrow> Inl e
      | Inr label \<Rightarrow>
          per_image_inference classify rest
            (predictions @ [\<lparr>pred_idx = idx, pred_severity = severity, pred_label = label\<rparr>],
             severity_sum + severity))"

subsection \<open>The route\<close>

text \<open>
  The response dictionary and its nested \<open>weather\<close> dictionary, one field per key.
\<close>

record weather =
  w_humidity :: pyfloat
  w_temperature :: pyfloat
  w_wetness :: pyfloat
  w_lat :: pyfloat
  w_lon :: pyfloat

record api_response =
  resp_percent_severity_index :: pyfloat
  resp_overall_label :: string
  resp_overall_severity_index :: int
  resp_weather :: weather
  resp_recommendation :: recommendation

text \<open>
  \<open>getPrescription(files, humidity, temperature, wetness, lat, lon)\<close>, from the first
  statement of the body on, in the state \<open>g\<close> of the imported \<open>rule_service\<close> module.
  Each statement that can raise is a \<open>case\<close>; an exception ends the request.
\<close>

definition getPrescription ::
  "('f \<Rightarrow> int) \<Rightarrow> rule_service \<Rightarrow> 'f list
     \<Rightarrow> pyfloat \<Rightarrow> pyfloat \<Rightarrow> pyfloat \<Rightarrow> pyfloat \<Rightarrow> pyfloat
     \<Rightarrow> (py_error + api_response) \<times> rule_service" where
  "getPrescription classify g files hum temp wet la lo =
     (case per_image_inference classify (enumerate 0 files) ([], 0) of
        Inl e \<Rightarrow> (Inl e, g)
      | Inr (predictions, severity_sum) \<Rightarrow>
     (case py_truediv severity_sum (MAX_SEVERITY_SCORE * int (length predictions)) of
        Inl e \<Rightarrow> (Inl e, g)
      | Inr q \<Rightarrow>
     (let psi = py_round_2 (f_mul q (py_int 100)) in
      case py_truediv severity_sum (int (length predictions)) of
        Inl e \<Rightarrow> (Inl e, g)
      | Inr mean \<Rightarrow>
     (case py_round mean of
        Inl e \<Rightarrow> (Inl e, g)
      | Inr overall_idx \<Rightarrow>
     (case list_getitem core_CLASS_LABELS overall_idx of
        Inl e \<Rightarrow> (Inl e, g)
      | Inr overall_label \<Rightarrow>
     (case get_recommendation g overall_idx hum temp wet of
        (Inl e, g') \<Rightarrow> (Inl e, g')
      | (Inr recommendation, g') \<Rightarrow>
          (Inr \<lparr>resp_percent_severity_index = psi,
                resp_overall_label = overall_label,
                resp_overall_severity_index = overall_idx,
                resp_weather = \<lparr>w_humidity = hum, w_temperature = temp, w_wetness = wet,
                                w_lat = la, w_lon = lo\<rparr>,
                resp_recommendation = recommendation\<rparr>, g')))))))"

section \<open>Quantities named by the specification\<close>

text \<open>
  The two High rules and the Low rule of the weather-risk classification, as the
  specification words them.
\<close>

definition rule_high :: "pyfloat \<Rightarrow> pyfloat \<Rightarrow> pyfloat \<Rightarrow> bool" where
  "rule_high t h w \<longleftrightarrow>
     (f_le (py_int 25) t \<and> f_le t (py_int 30) \<and> f_ge h (py_int 95) \<and> f_ge w (py_int 12))
   \<or> (f_le (py_int 22) t \<and> f_le t (py_int 30) \<and> f_ge h (py_int 95) \<and> f_ge w (py_int 6))"

definition rule_low :: "pyfloat \<Rightarrow> pyfloat \<Rightarrow> pyfloat \<Rightarrow> bool" where
  "rule_low t h w \<longleftrightarrow> f_lt t (py_int 22) \<or> f_lt h (py_int 85) \<or> f_lt w (py_int 6)"

text \<open>
  A table is populated at a key when it maps the key to a non-empty text.
\<close>

definition populated :: "('k \<times> string) list \<Rightarrow> 'k \<Rightarrow> bool" where
  "populated d k = (case map_of d k of None \<Rightarrow> False | Some v \<Rightarrow> v \<noteq> [])"

text \<open>
  The percent severity index as the specification gives it,
  \<open>round(sum(classes) / (MAX_SEVERITY * count) * 100, 2)\<close> with \<open>MAX_SEVERITY = 3\<close>,
  read as the Python expression it is.
\<close>

definition spec_percent_severity_index :: "int list \<Rightarrow> pyfloat" where
  "spec_percent_severity_index classes =
     py_round_2 (f_mul (double_of (of_int (sum_list classes) / (3 * of_int (int (length classes)))))
                       (py_int 100))"

text \<open>
  The overall index as the specification words it: the arithmetic mean of the classes,
  taken exactly, rounded to the nearest integer.
\<close>

definition spec_overall_idx :: "int list \<Rightarrow> int" where
  "spec_overall_idx classes =
     round_half_even (of_int (sum_list classes) / of_int (int (length classes)))"


text \<open>
  Names for the values the route computes from the sum \<open>s\<close> of the classes and the
  number \<open>n\<close> of images: the exponent \<open>to_double\<close> rounds at, the percent severity
  index and the float mean.
\<close>

definition dexp :: "rat \<Rightarrow> int" where
  "dexp x = max (ilog2 \<bar>x\<bar> - 52) (- 1074)"

definition psi_value :: "int \<Rightarrow> int \<Rightarrow> rat" where
  "psi_value s n =
     to_double (of_int (round_half_even
       (to_double (to_double (of_int s / (3 * of_int n)) * 100) * 100)) / 100)"

definition mean_value :: "int \<Rightarrow> int \<Rightarrow> rat" where
  "mean_value s n = to_double (of_int s / of_int n)"

section \<open>Rounding\<close>

subsection \<open>Rounding to an integer\<close>

lemma round_half_even_lower: "x - 1 / 2 \<le> of_int (round_half_even x)"
  unfolding round_half_even_def Let_def by (simp; linarith)

lemma round_half_even_upper: "of_int (round_half_even x) \<le> x + 1 / 2"
  unfolding round_half_even_def Let_def by (simp; linarith)

lemma round_half_even_of_int [simp]: "round_half_even (of_int n) = n"
  by (simp add: round_half_even_def)

lemma round_half_even_floor: "\<lfloor>x\<rfloor> \<le> round_half_even x" "round_half_even x \<le> \<lfloor>x\<rfloor> + 1"
  by (simp_all add: round_half_even_def Let_def)

lemma round_half_even_mono:
  assumes "x \<le> y"
  shows "round_half_even x \<le> round_half_even y"
proof (cases "\<lfloor>x\<rfloor> = \<lfloor>y\<rfloor>")
  case True
  with assms show ?thesis
    by (auto simp add: round_half_even_def Let_def)
next
  case False
  with assms have "\<lfloor>x\<rfloor> + 1 \<le> \<lfloor>y\<rfloor>"
    using floor_mono [of x y] by linarith
  with round_half_even_floor(2) [of x] round_half_even_floor(1) [of y] show ?thesis
    by linarith
qed

lemma round_half_even_near:
  assumes "\<bar>y - of_int k\<bar> < 1 / 2"
  shows "round_half_even y = k"
proof -
  have "\<bar>of_int (round_half_even y) - of_int k :: rat\<bar> < 1"
    using round_half_even_lower [of y] round_half_even_upper [of y] assms by linarith
  then have "\<bar>round_half_even y - k\<bar> < 1"
    by (metis of_int_abs of_int_diff of_int_less_1_iff)
  then show ?thesis by linarith
qed

subsection \<open>The binary exponent\<close>

lemma ilog2_bounds:
  assumes "0 < x"
  shows "2 powi ilog2 x \<le> x" and "x < 2 powi (ilog2 x + 1)"
proof -
  obtain p q where pq: "quotient_of x = (p, q)" by (cases "quotient_of x")
  then have q: "0 < q" and x: "x = of_int p / of_int q"
    using quotient_of_denom_pos quotient_of_div by blast+
  with assms have p: "0 < p"
    by (simp add: zero_less_divide_iff)
  define bp bq where "bp = bitlen p" and "bq = bitlen q"
  have bp: "2 ^ nat (bp - 1) \<le> p" "p < 2 ^ nat bp"
    and bq: "2 ^ nat (bq - 1) \<le> q" "q < 2 ^ nat bq"
    using bitlen_bounds [OF p] bitlen_bounds [OF q] by (simp_all add: bp_def bq_def)
  have pos: "1 \<le> bp" "1 \<le> bq"
  proof -
    have "bitlen p \<noteq> 0" "bitlen q \<noteq> 0"
      using p q by (simp_all add: bitlen_eq_zero_iff)
    then show "1 \<le> bp" "1 \<le> bq"
      using bitlen_nonneg [of p] bitlen_nonneg [of q] unfolding bp_def bq_def by linarith+
  qed
  have P: "(2::rat) powi (bp - 1) \<le> of_int p" "of_int p < (2::rat) powi bp"
  proof -
    have "(of_int (2 ^ nat (bp - 1)) :: rat) \<le> of_int p" using bp(1) of_int_le_iff by blast
    then show "(2::rat) powi (bp - 1) \<le> of_int p"
      using pos by (simp add: power_int_def)
    have "(of_int p :: rat) < of_int (2 ^ nat bp)" using bp(2) of_int_less_iff by blast
    then show "of_int p < (2::rat) powi bp"
      using pos by (simp add: power_int_def)
  qed
  have Q: "(2::rat) powi (bq - 1) \<le> of_int q" "of_int q < (2::rat) powi bq"
  proof -
    have "(of_int (2 ^ nat (bq - 1)) :: rat) \<le> of_int q" using bq(1) of_int_le_iff by blast
    then show "(2::rat) powi (bq - 1) \<le> of_int q"
      using pos by (simp add: power_int_def)
    have "(of_int q :: rat) < of_int (2 ^ nat bq)" using bq(2) of_int_less_iff by blast
    then show "of_int q < (2::rat) powi bq"
      using pos by (simp add: power_int_def)
  qed
  define d where "d = bp - bq"
  have qpos: "(0::rat) < of_int q" using q by simp
  have up: "x < 2 powi (d + 1)"
  proof -
    have "x * of_int q = of_int p" using x qpos by simp
    also have "\<dots> < 2 powi bp" by (rule P(2))
    also have "\<dots> = 2 powi (d + 1) * 2 powi (bq - 1)"
      by (simp add: d_def flip: power_int_add)
    also have "\<dots> \<le> 2 powi (d + 1) * of_int q"
      using Q(1) by (simp add: mult_left_mono)
    finally show ?thesis using qpos by simp
  qed
  have low: "2 powi (d - 1) < x"
  proof -
    have "2 powi (d - 1) * of_int q < 2 powi (d - 1) * (2::rat) powi bq"
      using Q(2) by (simp add: mult_strict_left_mono)
    also have "\<dots> = 2 powi (bp - 1)"
      by (simp add: d_def flip: power_int_add)
    also have "\<dots> \<le> of_int p" by (rule P(1))
    also have "\<dots> = x * of_int q" using x qpos by simp
    finally show ?thesis using qpos by simp
  qed
  have il: "ilog2 x = (if 2 powi d \<le> x then d else d - 1)"
    by (simp add: ilog2_def pq Let_def d_def bp_def bq_def)
  show "2 powi ilog2 x \<le> x"
    using low by (simp add: il)
  show "x < 2 powi (ilog2 x + 1)"
    using up by (simp add: il)
qed

lemma ilog2_mono:
  assumes "0 < x" "x \<le> y"
  shows "ilog2 x \<le> ilog2 y"
proof (rule ccontr)
  assume "\<not> ilog2 x \<le> ilog2 y"
  then have "ilog2 y + 1 \<le> ilog2 x" by simp
  then have "(2::rat) powi (ilog2 y + 1) \<le> 2 powi ilog2 x"
    by (simp add: power_int_increasing)
  moreover have "y < 2 powi (ilog2 y + 1)" using assms ilog2_bounds(2) [of y] by simp
  moreover have "2 powi ilog2 x \<le> x" using assms ilog2_bounds(1) by simp
  ultimately show False using assms by linarith
qed

lemma ilog2_less:
  assumes "0 < x" "x < 2 powi k"
  shows "ilog2 x < k"
proof (rule ccontr)
  assume "\<not> ilog2 x < k"
  then have "(2::rat) powi k \<le> 2 powi ilog2 x"
    by (simp add: power_int_increasing)
  with ilog2_bounds(1) [OF assms(1)] assms(2) show False by linarith
qed

subsection \<open>Rounding to a double\<close>

text \<open>
  Rounding to a double keeps the order of non-negative numbers, moves a number by at
  most half a unit of its last place, and leaves the constants of the route as they are.
\<close>

lemma to_double_eq:
  "x \<noteq> 0 \<Longrightarrow> to_double x = of_int (round_half_even (x / 2 powi dexp x)) * 2 powi dexp x"
  by (simp add: to_double_def dexp_def Let_def)

lemma to_double_zero [simp]: "to_double 0 = 0"
  by (simp add: to_double_def)

lemma to_double_nonneg:
  assumes "0 \<le> x"
  shows "0 \<le> to_double x"
proof (cases "x = 0")
  case True
  then show ?thesis by simp
next
  case False
  have "0 \<le> x / 2 powi dexp x" using assms by simp
  then have "round_half_even 0 \<le> round_half_even (x / 2 powi dexp x)"
    by (rule round_half_even_mono)
  then have "0 \<le> round_half_even (x / 2 powi dexp x)"
    using round_half_even_of_int [of 0] by simp
  then show ?thesis
    by (simp add: to_double_eq [OF False])
qed

lemma to_double_mono_pos:
  assumes "0 < x" "x \<le> y"
  shows "to_double x \<le> to_double y"
proof -
  from assms have y: "0 < y" by linarith
  have ee: "dexp x \<le> dexp y"
    using ilog2_mono [of x y] assms y by (simp add: dexp_def)
  have tx: "to_double x = of_int (round_half_even (x / 2 powi dexp x)) * 2 powi dexp x"
    and ty: "to_double y = of_int (round_half_even (y / 2 powi dexp y)) * 2 powi dexp y"
    using assms y by (simp_all add: to_double_eq)
  show ?thesis
  proof (cases "dexp x = dexp y")
    case True
    have "x / 2 powi dexp y \<le> y / 2 powi dexp y"
      using assms by (simp add: divide_right_mono)
    then have "round_half_even (x / 2 powi dexp y) \<le> round_half_even (y / 2 powi dexp y)"
      by (rule round_half_even_mono)
    then show ?thesis
      by (simp add: tx ty True mult_right_mono)
  next
    case False
    with ee have lt: "dexp x + 1 \<le> dexp y" by simp
    then have ey: "dexp y = ilog2 y - 52"
      using y by (simp add: dexp_def max_def split: if_splits)
    have ex: "ilog2 x - 52 \<le> dexp x" using assms(1) by (simp add: dexp_def)
    have "x < 2 powi (ilog2 x + 1)" using ilog2_bounds(2) [OF assms(1)] .
    also have "\<dots> \<le> 2 powi (dexp x + 53)"
      using ex by (simp add: power_int_increasing)
    also have "\<dots> = 2 powi 53 * 2 powi dexp x"
      by (simp add: power_int_add)
    finally have "x / 2 powi dexp x \<le> 2 powi 53"
      by (simp add: pos_divide_le_eq)
    then have "round_half_even (x / 2 powi dexp x) \<le> round_half_even (of_int (2 ^ 53))"
      using round_half_even_mono by simp
    then have "round_half_even (x / 2 powi dexp x) \<le> 2 ^ 53"
      by (simp only: round_half_even_of_int)
    then have "(of_int (round_half_even (x / 2 powi dexp x)) :: rat) \<le> of_int (2 ^ 53)"
      using of_int_le_iff by blast
    then have "to_double x \<le> 2 powi 53 * 2 powi dexp x"
      by (simp add: tx mult_right_mono)
    also have "\<dots> = 2 powi (dexp x + 1 + 52)"
      by (simp add: power_int_add)
    also have "\<dots> \<le> 2 powi (dexp y + 52)"
      using lt by (simp add: power_int_increasing)
    finally have X: "to_double x \<le> 2 powi (dexp y + 52)" .
    have "2 powi 52 * 2 powi dexp y = (2::rat) powi (ilog2 y)"
      using power_int_add [of "2::rat" 52 "dexp y"] by (simp add: ey)
    also have "\<dots> \<le> y" using ilog2_bounds(1) [OF y] .
    finally have "2 powi 52 \<le> y / 2 powi dexp y"
      by (simp add: pos_le_divide_eq)
    then have "round_half_even (of_int (2 ^ 52)) \<le> round_half_even (y / 2 powi dexp y)"
      using round_half_even_mono by simp
    then have "2 ^ 52 \<le> round_half_even (y / 2 powi dexp y)"
      by (simp only: round_half_even_of_int)
    then have "(of_int (2 ^ 52) :: rat) \<le> of_int (round_half_even (y / 2 powi dexp y))"
      using of_int_le_iff by blast
    then have "2 powi 52 * 2 powi dexp y \<le> to_double y"
      by (simp add: ty mult_right_mono)
    then have Y: "2 powi (dexp y + 52) \<le> to_double y"
      by (simp add: power_int_add mult.commute)
    from X Y show ?thesis by linarith
  qed
qed

lemma to_double_mono:
  assumes "0 \<le> x" "x \<le> y"
  shows "to_double x \<le> to_double y"
proof (cases "x = 0")
  case True
  with assms to_double_nonneg [of y] show ?thesis by simp
next
  case False
  with assms to_double_mono_pos [of x y] show ?thesis by simp
qed

lemma to_double_error:
  assumes "x \<noteq> 0"
  shows "\<bar>to_double x - x\<bar> \<le> 2 powi dexp x / 2"
proof -
  let ?s = "(2::rat) powi dexp x"
  let ?r = "of_int (round_half_even (x / ?s)) :: rat"
  have s: "0 < ?s" by simp
  have "\<bar>?r - x / ?s\<bar> \<le> 1 / 2"
    using round_half_even_lower [of "x / ?s"] round_half_even_upper [of "x / ?s"] by linarith
  then have "\<bar>?r - x / ?s\<bar> * ?s \<le> 1 / 2 * ?s"
    using s by (simp add: mult_right_mono)
  moreover have "\<bar>?r - x / ?s\<bar> * ?s = \<bar>?r * ?s - x\<bar>"
  proof -
    have "\<bar>?r - x / ?s\<bar> * ?s = \<bar>(?r - x / ?s) * ?s\<bar>"
      using s by (simp add: abs_mult)
    also have "(?r - x / ?s) * ?s = ?r * ?s - x"
      using s by (simp add: algebra_simps)
    finally show ?thesis .
  qed
  ultimately show ?thesis
    by (simp add: to_double_eq [OF assms])
qed

lemma to_double_values:
  "to_double 1 = 1" "to_double 3 = 3" "to_double 100 = 100"
  "to_double (1 / 2) = 1 / 2" "to_double (3 / 2) = 3 / 2" "to_double (5 / 2) = 5 / 2"
  by code_simp+

lemma double_of_finite:
  assumes "- (2 ^ 1024) < to_double x" "to_double x < 2 ^ 1024"
  shows "double_of x = Finite (to_double x)"
  using assms by (simp add: double_of_def Let_def)

lemma double_of_bounded:
  assumes "0 \<le> x" "x \<le> c" "to_double c = c" "c < 2 ^ 1024"
  shows "double_of x = Finite (to_double x)" "0 \<le> to_double x" "to_double x \<le> c"
proof -
  show n: "0 \<le> to_double x" using assms(1) by (rule to_double_nonneg)
  show u: "to_double x \<le> c" using to_double_mono [OF assms(1,2)] assms(3) by simp
  have "- (2 ^ 1024) < (0::rat)" by simp
  with n u assms(4) show "double_of x = Finite (to_double x)"
    by (intro double_of_finite) linarith+
qed

section \<open>The advisory lookup\<close>

lemma populated_getitem:
  "populated d k \<Longrightarrow> \<exists>v. dict_getitem d k = Inr v \<and> v \<noteq> []"
  by (simp add: populated_def dict_getitem_def split: option.splits)

lemma rule_matrix_populated:
  "populated RULE_MATRIX_literal (''Healthy'', ''Low'')"
  "populated RULE_MATRIX_literal (''Mild'', ''Low'')"
  "populated RULE_MATRIX_literal (''Moderate'', ''Low'')"
  "populated RULE_MATRIX_literal (''Severe'', ''Low'')"
  "populated RULE_MATRIX_literal (''Healthy'', ''Medium'')"
  "populated RULE_MATRIX_literal (''Mild'', ''Medium'')"
  "populated RULE_MATRIX_literal (''Moderate'', ''Medium'')"
  "populated RULE_MATRIX_literal (''Severe'', ''Medium'')"
  "populated RULE_MATRIX_literal (''Healthy'', ''High'')"
  "populated RULE_MATRIX_literal (''Mild'', ''High'')"
  "populated RULE_MATRIX_literal (''Moderate'', ''High'')"
  "populated RULE_MATRIX_literal (''Severe'', ''High'')"
  by (simp_all add: populated_def RULE_MATRIX_literal_def)

lemma info_matrix_populated:
  "populated INFO_MATRIX_literal (''Healthy'', ''Low'')"
  "populated INFO_MATRIX_literal (''Mild'', ''Low'')"
  "populated INFO_MATRIX_literal (''Moderate'', ''Low'')"
  "populated INFO_MATRIX_literal (''Severe'', ''Low'')"
  "populated INFO_MATRIX_literal (''Healthy'', ''Medium'')"
  "populated INFO_MATRIX_literal (''Mild'', ''Medium'')"
  "populated INFO_MATRIX_literal (''Moderate'', ''Medium'')"
  "populated INFO_MATRIX_literal (''Severe'', ''Medium'')"
  "populated INFO_MATRIX_literal (''Healthy'', ''High'')"
  "populated INFO_MATRIX_literal (''Mild'', ''High'')"
  "populated INFO_MATRIX_literal (''Moderate'', ''High'')"
  "populated INFO_MATRIX_literal (''Severe'', ''High'')"
  by (simp_all add: populated_def INFO_MATRIX_literal_def)

lemma tables_populated:
  assumes "label \<in> set [''Healthy'', ''Mild'', ''Moderate'', ''Severe'']"
      and "tier \<in> set [''Low'', ''Medium'', ''High'']"
  shows "populated RULE_MATRIX_literal (label, tier)" "populated INFO_MATRIX_literal (label, tier)"
  using assms rule_matrix_populated info_matrix_populated by auto

lemma weather_risk_range: "weather_risk t h w \<in> set [''Low'', ''Medium'', ''High'']"
  by (simp add: weather_risk_def Let_def)

lemma weather_risk_examples:
  "weather_risk (Finite 27) (Finite 96) (Finite 13) = ''High''"
  "weather_risk (Finite 18) (Finite 99) (Finite 20) = ''Low''"
  "weather_risk (Finite 24) (Finite 90) (Finite 8) = ''Medium''"
  by (simp_all add: weather_risk_def Let_def py_int_def f_ge_def)

lemma label_lookup:
  assumes "0 \<le> i" "i \<le> 3"
  shows "list_getitem [''Healthy'', ''Mild'', ''Moderate'', ''Severe''] i
           = Inr ([''Healthy'', ''Mild'', ''Moderate'', ''Severe''] ! nat i)"
    and "[''Healthy'', ''Mild'', ''Moderate'', ''Severe''] ! nat i
           \<in> set [''Healthy'', ''Mild'', ''Moderate'', ''Severe'']"
proof -
  from assms have "nat i < 4" by simp
  then show "[''Healthy'', ''Mild'', ''Moderate'', ''Severe''] ! nat i
           \<in> set [''Healthy'', ''Mild'', ''Moderate'', ''Severe'']"
    using nth_mem [of "nat i" "[''Healthy'', ''Mild'', ''Moderate'', ''Severe'']"] by simp
  from assms show "list_getitem [''Healthy'', ''Mild'', ''Moderate'', ''Severe''] i
           = Inr ([''Healthy'', ''Mild'', ''Moderate'', ''Severe''] ! nat i)"
    by (simp add: list_getitem_def)
qed

lemma get_recommendation_in_range:
  assumes "0 \<le> i" "i \<le> 3"
  shows "\<exists>a b. get_recommendation rule_service_module i h t w =
           (Inr \<lparr>rec_severity_label = CLASS_LABELS rule_service_module ! nat i,
                 rec_weather_risk = weather_risk t h w,
                 rec_advice = a, rec_info = b\<rparr>, rule_service_module)
          \<and> a \<noteq> [] \<and> b \<noteq> []"
proof -
  let ?l = "[''Healthy'', ''Mild'', ''Moderate'', ''Severe''] ! nat i"
  let ?k = "(?l, weather_risk t h w)"
  have p: "populated RULE_MATRIX_literal ?k" "populated INFO_MATRIX_literal ?k"
    using tables_populated [OF label_lookup(2) [OF assms] weather_risk_range] by blast+
  obtain a where a: "dict_getitem RULE_MATRIX_literal ?k = Inr a" "a \<noteq> []"
    using populated_getitem [OF p(1)] by blast
  obtain b where b: "dict_getitem INFO_MATRIX_literal ?k = Inr b" "b \<noteq> []"
    using populated_getitem [OF p(2)] by blast
  have "get_recommendation rule_service_module i h t w =
           (Inr \<lparr>rec_severity_label = CLASS_LABELS rule_service_module ! nat i,
                 rec_weather_risk = weather_risk t h w,
                 rec_advice = a, rec_info = b\<rparr>, rule_service_module)"
    by (simp add: get_recommendation_def rule_service_module_def label_lookup(1) [OF assms] a b)
  with a b show ?thesis by blast
qed

lemma rule_high_finite:
  "rule_high (Finite t) (Finite h) (Finite w) \<longleftrightarrow>
     (25 \<le> t \<and> t \<le> 30 \<and> 95 \<le> h \<and> 12 \<le> w) \<or> (22 \<le> t \<and> t \<le> 30 \<and> 95 \<le> h \<and> 6 \<le> w)"
  by (simp add: rule_high_def py_int_def f_ge_def)

lemma rule_low_finite:
  "rule_low (Finite t) (Finite h) (Finite w) \<longleftrightarrow> t < 22 \<or> h < 85 \<or> w < 6"
  by (simp add: rule_low_def py_int_def)

section \<open>The batch metrics\<close>

text \<open>
  For a class sum between 0 and three times the number of images, neither division
  fails, the percent severity index lies between 0 and 100 and the rounded mean between
  0 and 3.
\<close>

lemma psi_steps:
  assumes "0 \<le> s" "s \<le> 3 * n" "0 < n"
  shows "py_truediv s (3 * n) = Inr (Finite (to_double (of_int s / (3 * of_int n))))"
    and "double_of (of_int s / (3 * of_int n)) = Finite (to_double (of_int s / (3 * of_int n)))"
    and "py_round_2 (f_mul (Finite (to_double (of_int s / (3 * of_int n)))) (py_int 100))
           = Finite (psi_value s n)"
    and "0 \<le> psi_value s n" and "psi_value s n \<le> 100"
proof -
  let ?x = "of_int s / (3 * of_int n) :: rat"
  have x: "0 \<le> ?x" "?x \<le> 1"
    using assms by (simp_all add: divide_le_eq)
  have big: "(1::rat) < 2 ^ 1024" "(100::rat) < 2 ^ 1024"
    by simp_all
  note q = double_of_bounded [OF x to_double_values(1) big(1)]
  show "py_truediv s (3 * n) = Inr (Finite (to_double ?x))"
    using assms(3) q(1) by (simp add: py_truediv_def)
  show "double_of ?x = Finite (to_double ?x)" by (rule q(1))
  let ?q = "to_double ?x"
  have m0: "0 \<le> ?q * 100" "?q * 100 \<le> 100" using q(2,3) by simp_all
  note m = double_of_bounded [OF m0 to_double_values(3) big(2)]
  let ?m = "to_double (?q * 100)"
  let ?k = "round_half_even (?m * 100)"
  have "round_half_even (of_int 0) \<le> ?k" "?k \<le> round_half_even (of_int 10000)"
    using m(2,3) by (intro round_half_even_mono; simp)+
  then have k: "0 \<le> ?k" "?k \<le> 10000"
    by (simp_all only: round_half_even_of_int)
  have p0: "0 \<le> (of_int ?k / 100 :: rat)" "(of_int ?k / 100 :: rat) \<le> 100"
    using k by simp_all
  note p = double_of_bounded [OF p0 to_double_values(3) big(2)]
  show "py_round_2 (f_mul (Finite ?q) (py_int 100)) = Finite (psi_value s n)"
    using m(1) p(1) by (simp add: py_int_def psi_value_def)
  show "0 \<le> psi_value s n" "psi_value s n \<le> 100"
    using p(2,3) by (simp_all add: psi_value_def)
qed

lemma mean_steps:
  assumes "0 \<le> s" "s \<le> 3 * n" "0 < n"
  shows "py_truediv s n = Inr (Finite (mean_value s n))"
    and "0 \<le> round_half_even (mean_value s n)" and "round_half_even (mean_value s n) \<le> 3"
proof -
  let ?x = "of_int s / of_int n :: rat"
  have x: "0 \<le> ?x" "?x \<le> 3"
    using assms by (simp_all add: divide_le_eq)
  have big: "(3::rat) < 2 ^ 1024" by simp
  note q = double_of_bounded [OF x to_double_values(2) big]
  show "py_truediv s n = Inr (Finite (mean_value s n))"
    using assms(3) q(1) by (simp add: py_truediv_def mean_value_def)
  have "round_half_even (of_int 0) \<le> round_half_even (mean_value s n)"
    "round_half_even (mean_value s n) \<le> round_half_even (of_int 3)"
    using q(2,3) by (intro round_half_even_mono; simp add: mean_value_def)+
  then show "0 \<le> round_half_even (mean_value s n)" "round_half_even (mean_value s n) \<le> 3"
    by (simp_all only: round_half_even_of_int)
qed

text \<open>
  Below \<open>2 ^ 51\<close> images the rounding of the quotient to a double does not change
  the integer the mean rounds to.
\<close>

lemma mean_exact:
  assumes "0 \<le> s" "s \<le> 3 * n" "0 < n" "n < 2 ^ 51"
  shows "round_half_even (mean_value s n) = round_half_even (of_int s / of_int n)"
proof (cases "s = 0")
  case True
  then show ?thesis by (simp add: mean_value_def)
next
  case False
  define x :: rat where "x = of_int s / of_int n"
  define k where "k = round_half_even x"
  have npos: "(0::rat) < of_int n" using assms(3) by simp
  have x: "0 < x" "x \<le> 3"
    using assms False by (simp_all add: x_def divide_le_eq)
  have d: "\<bar>x - of_int k\<bar> \<le> 1 / 2"
    using round_half_even_lower [of x] round_half_even_upper [of x] unfolding k_def by linarith
  show ?thesis
  proof (cases "\<bar>x - of_int k\<bar> = 1 / 2")
    case True
    then obtain j :: int where j: "x = of_int j + 1 / 2"
    proof (cases "x - of_int k = 1 / 2")
      case True
      then have "x = of_int k + 1 / 2" by simp
      then show ?thesis using that by blast
    next
      case False
      with \<open>\<bar>x - of_int k\<bar> = 1 / 2\<close> have "x - of_int k = - (1 / 2)" by linarith
      then have "x = of_int (k - 1) + 1 / 2" by simp
      then show ?thesis using that by blast
    qed
    have "- 1 < (of_int j :: rat)" "(of_int j :: rat) < 3" using x j by linarith+
    then have "- 1 < j" "j < 3"
      by (metis of_int_less_iff of_int_minus of_int_1, metis of_int_less_iff of_int_numeral)
    then have "j = 0 \<or> j = 1 \<or> j = 2" by linarith
    then have "x = 1 / 2 \<or> x = 3 / 2 \<or> x = 5 / 2" using j by auto
    then have "to_double x = x" using to_double_values(4-6) by metis
    then show ?thesis by (simp add: mean_value_def x_def)
  next
    case False
    with d have lt: "\<bar>x - of_int k\<bar> < 1 / 2" by linarith
    have xn: "x * of_int n = of_int s" using npos by (simp add: x_def)
    have "\<bar>x - of_int k\<bar> * (2 * of_int n) < 1 / 2 * (2 * of_int n)"
      using lt npos by (intro mult_strict_right_mono) simp_all
    moreover have "\<bar>x - of_int k\<bar> * (2 * of_int n) = \<bar>of_int (2 * s - 2 * n * k) :: rat\<bar>"
    proof -
      have "\<bar>x - of_int k\<bar> * (2 * of_int n) = \<bar>(x - of_int k) * (2 * of_int n)\<bar>"
        using npos by (simp add: abs_mult)
      also have "(x - of_int k) * (2 * of_int n) = 2 * (x * of_int n) - 2 * of_int n * of_int k"
        by (simp add: algebra_simps)
      also have "\<dots> = of_int (2 * s - 2 * n * k)" by (simp add: xn)
      finally show ?thesis .
    qed
    ultimately have "\<bar>of_int (2 * s - 2 * n * k) :: rat\<bar> < of_int n" by simp
    then have "\<bar>2 * s - 2 * n * k\<bar> < n"
      by (metis of_int_abs of_int_less_iff)
    then have "\<bar>2 * s - 2 * n * k\<bar> \<le> n - 1" by linarith
    then have "\<bar>of_int (2 * s - 2 * n * k) :: rat\<bar> \<le> of_int (n - 1)"
      by (metis of_int_abs of_int_le_iff)
    then have A: "\<bar>2 * (x * of_int n) - 2 * of_int n * of_int k\<bar> \<le> of_int n - 1"
      by (simp add: xn)
    have "\<bar>x - of_int k\<bar> * (2 * of_int n) = \<bar>(x - of_int k) * (2 * of_int n)\<bar>"
      using npos by (simp add: abs_mult)
    also have "(x - of_int k) * (2 * of_int n) = 2 * (x * of_int n) - 2 * of_int n * of_int k"
      by (simp add: algebra_simps)
    finally have B: "\<bar>x - of_int k\<bar> * (2 * of_int n) \<le> of_int n - 1" using A by simp
    have n51: "(of_int n :: rat) < 2 ^ 51"
      using assms(4) by (metis of_int_less_iff of_int_numeral of_int_power)
    have xne: "x \<noteq> 0" using x by simp
    have "ilog2 x < 2"
      using x by (intro ilog2_less) simp_all
    then have "dexp x \<le> - 51" using x by (simp add: dexp_def)
    then have "(2::rat) powi dexp x \<le> 2 powi (- 51)"
      by (simp only: power_int_increasing one_le_numeral)
    with to_double_error [OF xne] have err: "\<bar>to_double x - x\<bar> \<le> 2 powi (- 51) / 2"
      by linarith
    have "(2 powi (- 51) / 2 :: rat) * (2 * of_int n) < 1"
    proof -
      have "(2 powi (- 51) / 2 :: rat) * (2 * of_int n) = of_int n / 2 ^ 51"
        by (simp add: power_int_minus field_simps)
      also have "\<dots> < 1" using n51 by simp
      finally show ?thesis .
    qed
    moreover have "\<bar>to_double x - x\<bar> * (2 * of_int n) \<le> (2 powi (- 51) / 2) * (2 * of_int n)"
      using err npos by (intro mult_right_mono) simp_all
    ultimately have C: "\<bar>to_double x - x\<bar> * (2 * of_int n) < 1" by linarith
    have "\<bar>to_double x - of_int k\<bar> \<le> \<bar>to_double x - x\<bar> + \<bar>x - of_int k\<bar>" by linarith
    then have "\<bar>to_double x - of_int k\<bar> * (2 * of_int n)
                 \<le> (\<bar>to_double x - x\<bar> + \<bar>x - of_int k\<bar>) * (2 * of_int n)"
      using npos by (intro mult_right_mono) simp_all
    also have "\<dots> = \<bar>to_double x - x\<bar> * (2 * of_int n) + \<bar>x - of_int k\<bar> * (2 * of_int n)"
      by (simp add: algebra_simps)
    also have "\<dots> < 1 + (of_int n - 1)" using B C by linarith
    also have "\<dots> = 1 / 2 * (2 * of_int n)" by simp
    finally have "\<bar>to_double x - of_int k\<bar> * (2 * of_int n) < 1 / 2 * (2 * of_int n)" .
    then have "\<bar>to_double x - of_int k\<bar> < 1 / 2"
      using npos by (simp only: mult_less_cancel_right_pos [of "2 * of_int n"])
    then have "round_half_even (to_double x) = k" by (rule round_half_even_near)
    then show ?thesis by (simp add: mean_value_def x_def k_def)
  qed
qed

text \<open>
  The values at the batches the specification pins.
\<close>

lemma psi_single:
  "psi_value 0 1 = 0" "Finite (psi_value 1 1) = double_of (3333 / 100)"
  "Finite (psi_value 2 1) = double_of (6667 / 100)" "psi_value 3 1 = 100"
  by code_simp+

lemma mean_examples:
  "round_half_even (mean_value 3 3) = 1" "round_half_even (mean_value 1 2) = 0"
  "round_half_even (mean_value 3 2) = 2"
  "mean_value 1 2 = 1 / 2" "mean_value 3 2 = 3 / 2"
  by code_simp+

subsection \<open>The loop and the whole route\<close>

lemma per_image_inference_ok:
  assumes "\<forall>f \<in> set (map snd efs). 0 \<le> classify f \<and> classify f \<le> 3"
  shows "\<exists>ps. per_image_inference classify efs (preds, s)
            = Inr (ps, s + sum_list (map classify (map snd efs)))
          \<and> length ps = length preds + length efs"
  using assms
proof (induction efs arbitrary: preds s)
  case Nil
  then show ?case by simp
next
  case (Cons ef efs)
  obtain i f where ef: "ef = (i, f)" by (cases ef)
  from Cons.prems have c: "0 \<le> classify f" "classify f \<le> 3"
    and rest: "\<forall>f \<in> set (map snd efs). 0 \<le> classify f \<and> classify f \<le> 3"
    by (simp_all add: ef)
  obtain l where l: "list_getitem core_CLASS_LABELS (classify f) = Inr l"
    using c by (simp add: list_getitem_def core_CLASS_LABELS_def)
  from Cons.IH [OF rest, of "preds @ [\<lparr>pred_idx = i, pred_severity = classify f, pred_label = l\<rparr>]"
      "s + classify f"]
  show ?case
    by (simp add: ef l Let_def add.assoc)
qed

lemma sum_list_range:
  assumes "\<forall>c \<in> set cs. 0 \<le> c \<and> c \<le> (3::int)"
  shows "0 \<le> sum_list cs" and "sum_list cs \<le> 3 * int (length cs)"
  using assms by (induction cs) auto

lemma classes_of_files:
  assumes "map classify files = cs" "cs \<noteq> []" "\<forall>c \<in> set cs. 0 \<le> c \<and> c \<le> (3::int)"
  shows "files \<noteq> []" "\<forall>f \<in> set files. 0 \<le> classify f \<and> classify f \<le> 3"
proof -
  show "files \<noteq> []" using assms(1,2) by auto
  have "classify ` set files = set cs" using assms(1) by (metis set_map)
  then show "\<forall>f \<in> set files. 0 \<le> classify f \<and> classify f \<le> 3"
    using assms(3) by blast
qed

lemma getPrescription_success:
  assumes "files \<noteq> []" and "\<forall>f \<in> set files. 0 \<le> classify f \<and> classify f \<le> 3"
  defines "s \<equiv> sum_list (map classify files)" and "n \<equiv> int (length files)"
  shows "\<exists>a b. getPrescription classify rule_service_module files h t w la lo =
          (Inr \<lparr>resp_percent_severity_index = Finite (psi_value s n),
                resp_overall_label = core_CLASS_LABELS ! nat (round_half_even (mean_value s n)),
                resp_overall_severity_index = round_half_even (mean_value s n),
                resp_weather = \<lparr>w_humidity = h, w_temperature = t, w_wetness = w,
                                w_lat = la, w_lon = lo\<rparr>,
                resp_recommendation =
                  \<lparr>rec_severity_label =
                      CLASS_LABELS rule_service_module ! nat (round_half_even (mean_value s n)),
                   rec_weather_risk = weather_risk t h w,
                   rec_advice = a, rec_info = b\<rparr>\<rparr>, rule_service_module)
         \<and> a \<noteq> [] \<and> b \<noteq> []"
proof -
  have "\<forall>f \<in> set (map snd (enumerate 0 files)). 0 \<le> classify f \<and> classify f \<le> 3"
    using assms(2) by simp
  from per_image_inference_ok [OF this, of "[]" 0]
  obtain ps where ps: "per_image_inference classify (enumerate 0 files) ([], 0) = Inr (ps, s)"
    "length ps = length files"
    by (auto simp add: s_def)
  have sn: "0 \<le> s" "s \<le> 3 * n" "0 < n"
    using sum_list_range [of "map classify files"] assms(1,2) by (simp_all add: s_def n_def)
  note psi = psi_steps [OF sn]
  note mean = mean_steps [OF sn]
  let ?i = "round_half_even (mean_value s n)"
  have lab: "list_getitem core_CLASS_LABELS ?i = Inr (core_CLASS_LABELS ! nat ?i)"
    using mean(2,3) by (simp add: list_getitem_def core_CLASS_LABELS_def)
  obtain a b where rec: "get_recommendation rule_service_module ?i h t w =
           (Inr \<lparr>rec_severity_label = CLASS_LABELS rule_service_module ! nat ?i,
                 rec_weather_risk = weather_risk t h w,
                 rec_advice = a, rec_info = b\<rparr>, rule_service_module)"
      and ab: "a \<noteq> []" "b \<noteq> []"
    using get_recommendation_in_range [OF mean(2,3), of h t w] by blast
  have "getPrescription classify rule_service_module files h t w la lo =
          (Inr \<lparr>resp_percent_severity_index = Finite (psi_value s n),
                resp_overall_label = core_CLASS_LABELS ! nat ?i,
                resp_overall_severity_index = ?i,
                resp_weather = \<lparr>w_humidity = h, w_temperature = t, w_wetness = w,
                                w_lat = la, w_lon = lo\<rparr>,
                resp_recommendation =
                  \<lparr>rec_severity_label = CLASS_LABELS rule_service_module ! nat ?i,
                   rec_weather_risk = weather_risk t h w,
                   rec_advice = a, rec_info = b\<rparr>\<rparr>, rule_service_module)"
    unfolding getPrescription_def
    by (simp add: ps MAX_SEVERITY_SCORE_def NUM_CLASSES_def psi(1,3) mean(1) lab rec
          flip: n_def)
  with ab show ?thesis by blast
qed

subsection \<open>The exceptions of the route\<close>










section \<open>The claims\<close>

text \<open>
  Claim C1. For every temperature, humidity and wetness the classifier answers High
  exactly when one of the two High rules holds, Low exactly when no High rule holds and
  the Low rule does, and Medium exactly when neither holds. The four pinned readings
  give High, High, Low and Medium; since High is tested first, a reading that satisfies
  a High rule is High whatever the Low rule says.
\<close>

theorem weather_risk_classification:
  "(weather_risk t h w = ''High'') = rule_high t h w
   \<and> (weather_risk t h w = ''Low'') = (\<not> rule_high t h w \<and> rule_low t h w)
   \<and> (weather_risk t h w = ''Medium'') = (\<not> rule_high t h w \<and> \<not> rule_low t h w)
   \<and> (weather_risk (Finite a) (Finite b) (Finite c) = ''High'')
       = ((25 \<le> a \<and> a \<le> 30 \<and> 95 \<le> b \<and> 12 \<le> c) \<or> (22 \<le> a \<and> a \<le> 30 \<and> 95 \<le> b \<and> 6 \<le> c))
   \<and> (weather_risk (Finite a) (Finite b) (Finite c) = ''Low'')
       = (\<not> ((25 \<le> a \<and> a \<le> 30 \<and> 95 \<le> b \<and> 12 \<le> c) \<or> (22 \<le> a \<and> a \<le> 30 \<and> 95 \<le> b \<and> 6 \<le> c))
          \<and> (a < 22 \<or> b < 85 \<or> c < 6))
   \<and> weather_risk (Finite 27) (Finite 96) (Finite 13) = ''High''
   \<and> weather_risk (Finite 23) (Finite 96) (Finite 7) = ''High''
   \<and> weather_risk (Finite 18) (Finite 99) (Finite 20) = ''Low''
   \<and> weather_risk (Finite 24) (Finite 90) (Finite 8) = ''Medium''"
proof -
  have split: "weather_risk x y z =
      (if rule_high x y z then ''High'' else if rule_low x y z then ''Low'' else ''Medium'')"
    for x y z
    by (simp add: weather_risk_def rule_high_def rule_low_def Let_def)
  have gen: "(weather_risk t h w = ''High'') = rule_high t h w"
    "(weather_risk t h w = ''Low'') = (\<not> rule_high t h w \<and> rule_low t h w)"
    "(weather_risk t h w = ''Medium'') = (\<not> rule_high t h w \<and> \<not> rule_low t h w)"
    by (simp_all add: split)
  have fin: "(weather_risk (Finite a) (Finite b) (Finite c) = ''High'')
       = ((25 \<le> a \<and> a \<le> 30 \<and> 95 \<le> b \<and> 12 \<le> c) \<or> (22 \<le> a \<and> a \<le> 30 \<and> 95 \<le> b \<and> 6 \<le> c))"
    "(weather_risk (Finite a) (Finite b) (Finite c) = ''Low'')
       = (\<not> ((25 \<le> a \<and> a \<le> 30 \<and> 95 \<le> b \<and> 12 \<le> c) \<or> (22 \<le> a \<and> a \<le> 30 \<and> 95 \<le> b \<and> 6 \<le> c))
          \<and> (a < 22 \<or> b < 85 \<or> c < 6))"
    by (auto simp add: split rule_high_finite rule_low_finite)
  have ex: "weather_risk (Finite 27) (Finite 96) (Finite 13) = ''High''"
    "weather_risk (Finite 23) (Finite 96) (Finite 7) = ''High''"
    "weather_risk (Finite 18) (Finite 99) (Finite 20) = ''Low''"
    "weather_risk (Finite 24) (Finite 90) (Finite 8) = ''Medium''"
    by (simp_all add: split rule_high_finite rule_low_finite)
  from gen fin ex show ?thesis by blast
qed




text \<open>
  Claim C3. For every non-empty batch whose classes all lie between 0 and 3 the request
  succeeds and its percent severity index is the value of the specification's formula,
  a finite number between 0 and 100; for a batch of one image it is 0.0, 33.33, 66.67
  or 100.0 for the classes 0, 1, 2 and 3 (\<open>double_of (3333 / 100)\<close> is the float
  written \<open>33.33\<close>).
\<close>

theorem percent_severity_index_formula:
  assumes "files \<noteq> []" and "\<forall>f \<in> set files. 0 \<le> classify f \<and> classify f \<le> 3"
  shows "\<exists>r p. fst (getPrescription classify rule_service_module files h t w la lo) = Inr r
          \<and> resp_percent_severity_index r = spec_percent_severity_index (map classify files)
          \<and> resp_percent_severity_index r = Finite p \<and> 0 \<le> p \<and> p \<le> 100
          \<and> (\<forall>f. files = [f] \<longrightarrow>
                resp_percent_severity_index r =
                  (if classify f = 0 then Finite 0
                   else if classify f = 1 then double_of (3333 / 100)
                   else if classify f = 2 then double_of (6667 / 100)
                   else Finite 100))"
proof -
  define s n where "s = sum_list (map classify files)" and "n = int (length files)"
  have sn: "0 \<le> s" "s \<le> 3 * n" "0 < n"
    using sum_list_range [of "map classify files"] assms by (simp_all add: s_def n_def)
  obtain r where r: "fst (getPrescription classify rule_service_module files h t w la lo) = Inr r"
    and p: "resp_percent_severity_index r = Finite (psi_value s n)"
    using getPrescription_success [OF assms, of h t w la lo] unfolding s_def n_def by auto
  have spec: "spec_percent_severity_index (map classify files) = Finite (psi_value s n)"
    using psi_steps(2,3) [OF sn] by (simp add: spec_percent_severity_index_def s_def n_def)
  have single: "Finite (psi_value s n) =
                  (if classify f = 0 then Finite 0
                   else if classify f = 1 then double_of (3333 / 100)
                   else if classify f = 2 then double_of (6667 / 100)
                   else Finite 100)" if "files = [f]" for f
  proof -
    from that assms(2) have c: "0 \<le> classify f" "classify f \<le> 3" by simp_all
    from that have "s = classify f" "n = 1" by (simp_all add: s_def n_def)
    moreover from c have "classify f = 0 \<or> classify f = 1 \<or> classify f = 2 \<or> classify f = 3"
      by linarith
    ultimately show ?thesis using psi_single by auto
  qed
  from r p spec single psi_steps(4,5) [OF sn] show ?thesis by auto
qed

text \<open>
  The theorem at a concrete input that meets its hypotheses.
\<close>

theorem percent_severity_index_formula_witness:
  "[2::int] \<noteq> [] \<and> (\<exists>r. fst (getPrescription id rule_service_module [2::int]
        (Finite 90) (Finite 24) (Finite 8) (Finite 14) (Finite 121)) = Inr r
      \<and> resp_percent_severity_index r = double_of (6667 / 100))"
proof -
  have h: "[2::int] \<noteq> []" "\<forall>f \<in> set [2::int]. 0 \<le> id f \<and> id f \<le> 3" by simp_all
  from percent_severity_index_formula [where classify = id, OF h, of "Finite 90" "Finite 24" "Finite 8" "Finite 14" "Finite 121"]
  show ?thesis by auto
qed

text \<open>
  Claim C4. For every non-empty batch whose classes all lie between 0 and 3 the request
  succeeds; the overall severity index is the float quotient of the class sum by the
  number of images, rounded to the nearest integer; for fewer than \<open>2 ^ 51\<close> images
  (any batch that fits in memory) that is the exact arithmetic mean rounded to the nearest
  integer; the index lies between 0 and 3, so the lookup in the label list succeeds, and
  the overall label is the label at that index. The classes 0, 3, 0 give the index 1 and
  the label Mild.
\<close>

theorem overall_severity_index_mean:
  assumes "files \<noteq> []" and "\<forall>f \<in> set files. 0 \<le> classify f \<and> classify f \<le> 3"
  shows "\<exists>r. fst (getPrescription classify rule_service_module files h t w la lo) = Inr r
          \<and> resp_overall_severity_index r
              = round_half_even (to_double (of_int (sum_list (map classify files))
                                             / of_int (int (length files))))
          \<and> (int (length files) < 2 ^ 51 \<longrightarrow>
                resp_overall_severity_index r = spec_overall_idx (map classify files))
          \<and> 0 \<le> resp_overall_severity_index r \<and> resp_overall_severity_index r \<le> 3
          \<and> list_getitem core_CLASS_LABELS (resp_overall_severity_index r)
              = Inr (resp_overall_label r)
          \<and> resp_overall_label r = core_CLASS_LABELS ! nat (resp_overall_severity_index r)
          \<and> (map classify files = [0, 3, 0] \<longrightarrow>
                resp_overall_severity_index r = 1 \<and> resp_overall_label r = ''Mild'')"
proof -
  define s n where "s = sum_list (map classify files)" and "n = int (length files)"
  have sn: "0 \<le> s" "s \<le> 3 * n" "0 < n"
    using sum_list_range [of "map classify files"] assms by (simp_all add: s_def n_def)
  let ?i = "round_half_even (mean_value s n)"
  obtain r where r: "fst (getPrescription classify rule_service_module files h t w la lo) = Inr r"
    and i: "resp_overall_severity_index r = ?i"
    and l: "resp_overall_label r = core_CLASS_LABELS ! nat ?i"
    using getPrescription_success [OF assms, of h t w la lo] unfolding s_def n_def by auto
  note range = mean_steps(2,3) [OF sn]
  have lab: "list_getitem core_CLASS_LABELS ?i = Inr (core_CLASS_LABELS ! nat ?i)"
    using range by (simp add: list_getitem_def core_CLASS_LABELS_def)
  have exact: "?i = spec_overall_idx (map classify files)" if "int (length files) < 2 ^ 51"
    using mean_exact [OF sn] that by (simp add: spec_overall_idx_def s_def n_def)
  have ex: "?i = 1 \<and> core_CLASS_LABELS ! nat ?i = ''Mild''" if "map classify files = [0, 3, 0]"
  proof -
    from that have "s = 3" by (simp add: s_def)
    moreover have "length (map classify files) = 3" by (simp only: that) simp
    then have "n = 3" by (simp add: n_def)
    ultimately show ?thesis using mean_examples(1) by (simp add: core_CLASS_LABELS_def)
  qed
  have fl: "?i = round_half_even (to_double (of_int (sum_list (map classify files))
                                             / of_int (int (length files))))"
    by (simp add: mean_value_def s_def n_def)
  from r i l range lab exact ex fl show ?thesis by auto
qed

text \<open>
  The theorem at a concrete input that meets its hypotheses.
\<close>

theorem overall_severity_index_mean_witness:
  "[0, 3, 0 :: int] \<noteq> [] \<and> int (length [0, 3, 0 :: int]) < 2 ^ 51
   \<and> (\<exists>r. fst (getPrescription id rule_service_module [0, 3, 0 :: int]
        (Finite 90) (Finite 24) (Finite 8) (Finite 14) (Finite 121)) = Inr r
      \<and> resp_overall_severity_index r = 1 \<and> resp_overall_label r = ''Mild''
      \<and> resp_overall_severity_index r = spec_overall_idx [0, 3, 0])"
proof -
  have h: "[0, 3, 0 :: int] \<noteq> []" "\<forall>f \<in> set [0, 3, 0 :: int]. 0 \<le> id f \<and> id f \<le> 3"
    by simp_all
  from overall_severity_index_mean [where classify = id, OF h, of "Finite 90" "Finite 24" "Finite 8" "Finite 14" "Finite 121"]
  show ?thesis by auto
qed

text \<open>
  Claim C5. For every severity label among Healthy, Mild, Moderate and Severe and every
  risk tier among Low, Medium and High, both advisory tables hold a non-empty text under
  the key (label, tier); a call of \<open>get_recommendation\<close> with a severity index from 0
  to 3 returns, for any weather, a non-empty advice and a non-empty info text with no
  lookup failure; each of the twelve combinations is the result of such a call; and
  each table has twelve entries.
\<close>

theorem get_recommendation_complete:
  assumes "label \<in> set [''Healthy'', ''Mild'', ''Moderate'', ''Severe'']"
      and "tier \<in> set [''Low'', ''Medium'', ''High'']"
      and "0 \<le> idx" and "idx \<le> 3"
  shows "(\<exists>a. dict_getitem (RULE_MATRIX rule_service_module) (label, tier) = Inr a \<and> a \<noteq> [])
       \<and> (\<exists>b. dict_getitem (INFO_MATRIX rule_service_module) (label, tier) = Inr b \<and> b \<noteq> [])
       \<and> (\<exists>r. fst (get_recommendation rule_service_module idx h t w) = Inr r
              \<and> rec_severity_label r = CLASS_LABELS rule_service_module ! nat idx
              \<and> rec_weather_risk r = weather_risk t h w
              \<and> rec_advice r \<noteq> [] \<and> rec_info r \<noteq> [])
       \<and> (\<exists>i h' t' w' r. 0 \<le> i \<and> i \<le> 3
              \<and> fst (get_recommendation rule_service_module i h' t' w') = Inr r
              \<and> rec_severity_label r = label \<and> rec_weather_risk r = tier
              \<and> rec_advice r \<noteq> [] \<and> rec_info r \<noteq> [])
       \<and> length (RULE_MATRIX rule_service_module) = 12
       \<and> length (INFO_MATRIX rule_service_module) = 12"
proof -
  have tabs: "(\<exists>a. dict_getitem (RULE_MATRIX rule_service_module) (label, tier) = Inr a \<and> a \<noteq> [])"
     "(\<exists>b. dict_getitem (INFO_MATRIX rule_service_module) (label, tier) = Inr b \<and> b \<noteq> [])"
    using tables_populated [OF assms(1,2)] populated_getitem
    by (simp_all add: rule_service_module_def)
  have call: "\<exists>r. fst (get_recommendation rule_service_module i h t w) = Inr r
              \<and> rec_severity_label r = CLASS_LABELS rule_service_module ! nat i
              \<and> rec_weather_risk r = weather_risk t h w
              \<and> rec_advice r \<noteq> [] \<and> rec_info r \<noteq> []" if "0 \<le> i" "i \<le> 3" for i h t w
    using get_recommendation_in_range [OF that, of h t w] by auto
  obtain i where i: "0 \<le> i" "i \<le> 3" "CLASS_LABELS rule_service_module ! nat i = label"
  proof -
    from assms(1) consider "label = ''Healthy''" | "label = ''Mild''" | "label = ''Moderate''"
      | "label = ''Severe''" by auto
    then show ?thesis
    proof cases
      case 1 then show ?thesis using that [of 0] by (simp add: rule_service_module_def)
    next
      case 2 then show ?thesis using that [of 1] by (simp add: rule_service_module_def)
    next
      case 3 then show ?thesis using that [of 2] by (simp add: rule_service_module_def)
    next
      case 4 then show ?thesis using that [of 3] by (simp add: rule_service_module_def)
    qed
  qed
  obtain h' t' w' where tier: "weather_risk t' h' w' = tier"
    using assms(2) weather_risk_examples by auto
  have reach: "\<exists>i h' t' w' r. 0 \<le> i \<and> i \<le> 3
              \<and> fst (get_recommendation rule_service_module i h' t' w') = Inr r
              \<and> rec_severity_label r = label \<and> rec_weather_risk r = tier
              \<and> rec_advice r \<noteq> [] \<and> rec_info r \<noteq> []"
    using call [OF i(1,2), of h' t' w'] i tier by metis
  have len: "length (RULE_MATRIX rule_service_module) = 12"
    "length (INFO_MATRIX rule_service_module) = 12"
    by (simp_all add: rule_service_module_def RULE_MATRIX_literal_def INFO_MATRIX_literal_def)
  from tabs call [OF assms(3,4)] reach len show ?thesis by blast
qed

text \<open>
  The theorem at a concrete input that meets its hypotheses.
\<close>

theorem get_recommendation_complete_witness:
  "''Mild'' \<in> set [''Healthy'', ''Mild'', ''Moderate'', ''Severe'']
   \<and> ''High'' \<in> set [''Low'', ''Medium'', ''High'']
   \<and> (0::int) \<le> 1 \<and> (1::int) \<le> 3
   \<and> (\<exists>a. dict_getitem (RULE_MATRIX rule_service_module) (''Mild'', ''High'') = Inr a \<and> a \<noteq> [])
   \<and> (\<exists>r. fst (get_recommendation rule_service_module 1 (Finite 96) (Finite 27) (Finite 13)) = Inr r
          \<and> rec_severity_label r = ''Mild'' \<and> rec_weather_risk r = ''High''
          \<and> rec_advice r \<noteq> [] \<and> rec_info r \<noteq> [])"
proof -
  have h: "''Mild'' \<in> set [''Healthy'', ''Mild'', ''Moderate'', ''Severe'']"
    "''High'' \<in> set [''Low'', ''Medium'', ''High'']" "(0::int) \<le> 1" "(1::int) \<le> 3"
    by simp_all
  have l: "CLASS_LABELS rule_service_module ! nat 1 = ''Mild''"
    by (simp add: rule_service_module_def)
  from get_recommendation_complete [OF h, of "Finite 96" "Finite 27" "Finite 13"] h l
    weather_risk_examples(1)
  show ?thesis by simp
qed

text \<open>
  Claim C6, as amended. A call of \<open>get_recommendation\<close> with a severity index above 3
  or below -4, the indices that the lookup in the label list rejects, fails with
  \<open>IndexError\<close>, whatever the weather, and leaves the module state as it was. The
  source defines no \<open>ConfigurationError\<close>.
\<close>

theorem get_recommendation_index_error:
  assumes "severity_idx < - 4 \<or> 3 < severity_idx"
  shows "get_recommendation rule_service_module severity_idx h t w
           = (Inl IndexError, rule_service_module)"
  using assms by (auto simp add: get_recommendation_def rule_service_module_def list_getitem_def)

text \<open>
  The theorem at a concrete input that meets its hypotheses.
\<close>

theorem get_recommendation_index_error_witness:
  "((7::int) < - 4 \<or> (3::int) < 7)
   \<and> get_recommendation rule_service_module 7 (Finite 90) (Finite 24) (Finite 8)
       = (Inl IndexError, rule_service_module)"
  using get_recommendation_index_error [of 7 "Finite 90" "Finite 24" "Finite 8"] by simp

text \<open>
  Claim C6 as stated fails: with the severity index 4, outside the enumerated domain,
  the call fails with \<open>IndexError\<close> and not with \<open>ConfigurationError\<close>.
\<close>

theorem get_recommendation_no_configuration_error:
  "fst (get_recommendation rule_service_module 4 (Finite 90) (Finite 24) (Finite 8))
     = Inl IndexError
   \<and> fst (get_recommendation rule_service_module 4 (Finite 90) (Finite 24) (Finite 8))
     \<noteq> Inl ConfigurationError"
  by (simp add: get_recommendation_def rule_service_module_def list_getitem_def)

text \<open>
  Claim C7, as amended. The route checks no numeric field against a domain: for every
  non-empty batch whose classes lie between 0 and 3 and for any humidity, temperature,
  wetness, latitude and longitude, the request succeeds, the five values are in the
  response as they were received, and the weather risk is computed from the values as
  given.
\<close>

theorem getPrescription_accepts_any_reading:
  assumes "files \<noteq> []" and "\<forall>f \<in> set files. 0 \<le> classify f \<and> classify f \<le> 3"
  shows "\<exists>r. fst (getPrescription classify rule_service_module files h t w la lo) = Inr r
          \<and> resp_weather r = \<lparr>w_humidity = h, w_temperature = t, w_wetness = w,
                                w_lat = la, w_lon = lo\<rparr>
          \<and> rec_weather_risk (resp_recommendation r) = weather_risk t h w"
  using getPrescription_success [OF assms, of h t w la lo] by auto

text \<open>
  The theorem at a concrete input that meets its hypotheses.
\<close>

theorem getPrescription_accepts_any_reading_witness:
  "[1::int] \<noteq> [] \<and> (\<exists>r. fst (getPrescription id rule_service_module [1::int]
        (Finite (- 5)) (Finite 25) (Finite 7) (Finite 0) (Finite 0)) = Inr r
      \<and> w_humidity (resp_weather r) = Finite (- 5)
      \<and> rec_weather_risk (resp_recommendation r) = ''Low'')"
proof -
  have h: "[1::int] \<noteq> []" "\<forall>f \<in> set [1::int]. 0 \<le> id f \<and> id f \<le> 3" by simp_all
  have "weather_risk (Finite 25) (Finite (- 5)) (Finite 7) = ''Low''"
    by (simp add: weather_risk_def Let_def py_int_def f_ge_def)
  with getPrescription_accepts_any_reading [where classify = id, OF h, of "Finite (- 5)" "Finite 25" "Finite 7" "Finite 0" "Finite 0"]
  show ?thesis by auto
qed

text \<open>
  Claim C7 as stated fails: a request with humidity -5 and one image of class 1 is
  answered, with the humidity -5 in the response and the risk Low computed from it; it
  does not fail with \<open>InvalidInputError\<close>.
\<close>

theorem getPrescription_negative_humidity:
  "\<not> isl (fst (getPrescription id rule_service_module [1::int]
        (Finite (- 5)) (Finite 25) (Finite 7) (Finite 0) (Finite 0)))
   \<and> w_humidity (resp_weather (projr (fst (getPrescription id rule_service_module [1::int]
        (Finite (- 5)) (Finite 25) (Finite 7) (Finite 0) (Finite 0))))) = Finite (- 5)
   \<and> rec_weather_risk (resp_recommendation (projr (fst (getPrescription id
        rule_service_module [1::int]
        (Finite (- 5)) (Finite 25) (Finite 7) (Finite 0) (Finite 0))))) = ''Low''
   \<and> fst (getPrescription id rule_service_module [1::int]
        (Finite (- 5)) (Finite 25) (Finite 7) (Finite 0) (Finite 0)) \<noteq> Inl InvalidInputError"
proof -
  have h: "[1::int] \<noteq> []" "\<forall>f \<in> set [1::int]. 0 \<le> id f \<and> id f \<le> 3" by simp_all
  have "weather_risk (Finite 25) (Finite (- 5)) (Finite 7) = ''Low''"
    by (simp add: weather_risk_def Let_def py_int_def f_ge_def)
  with getPrescription_success [where classify = id, OF h, of "Finite (- 5)" "Finite 25" "Finite 7" "Finite 0" "Finite 0"]
  show ?thesis by auto
qed


text \<open>
  Claim C9. \<open>get_recommendation\<close> hands the module state back unchanged, whatever the
  state and the arguments; so a second call with the same arguments, made in the state
  the first call left, returns the same output and the state is still the original one;
  and a call made after any other call returns what it returns without it.
\<close>

theorem get_recommendation_pure:
  "snd (get_recommendation g i h t w) = g
   \<and> (case get_recommendation g i h t w of
        (r1, g1) \<Rightarrow> (case get_recommendation g1 i h t w of (r2, g2) \<Rightarrow> r1 = r2 \<and> g2 = g))
   \<and> fst (get_recommendation (snd (get_recommendation g i' h' t' w')) i h t w)
       = fst (get_recommendation g i h t w)"
proof -
  have unchanged: "snd (get_recommendation s j a b c) = s" for s j a b c
    by (simp add: get_recommendation_def Let_def split: sum.splits)
  then show ?thesis
    by (simp add: case_prod_beta)
qed

text \<open>
  Claim C10. A batch of two images with the classes 0 and 1 has the float mean 0.5 and
  the overall severity index 0; one with the classes 1 and 2 has the float mean 1.5 and
  the overall severity index 2: a tie goes to the even integer.
\<close>

theorem overall_index_ties_to_even:
  assumes "map classify files = [0, 1]" and "map classify files' = [1, 2]"
  shows "(\<exists>r. fst (getPrescription classify rule_service_module files h t w la lo) = Inr r
            \<and> resp_overall_severity_index r = 0)
       \<and> (\<exists>r. fst (getPrescription classify rule_service_module files' h t w la lo) = Inr r
            \<and> resp_overall_severity_index r = 2)
       \<and> py_truediv 1 2 = Inr (Finite (1 / 2)) \<and> py_round (Finite (1 / 2)) = Inr 0
       \<and> py_truediv 3 2 = Inr (Finite (3 / 2)) \<and> py_round (Finite (3 / 2)) = Inr 2"
proof -
  have a: "files \<noteq> []" "\<forall>f \<in> set files. 0 \<le> classify f \<and> classify f \<le> 3"
    using classes_of_files [OF assms(1)] by simp_all
  have b: "files' \<noteq> []" "\<forall>f \<in> set files'. 0 \<le> classify f \<and> classify f \<le> 3"
    using classes_of_files [OF assms(2)] by simp_all
  have la: "int (length files) = 2" "int (length files') = 2"
    using arg_cong [OF assms(1), of length] arg_cong [OF assms(2), of length] by simp_all
  have A: "\<exists>r. fst (getPrescription classify rule_service_module files h t w la lo) = Inr r
            \<and> resp_overall_severity_index r = 0"
    using getPrescription_success [OF a, of h t w la lo] mean_examples(2)
    by (auto simp add: assms(1) la)
  have B: "\<exists>r. fst (getPrescription classify rule_service_module files' h t w la lo) = Inr r
            \<and> resp_overall_severity_index r = 2"
    using getPrescription_success [OF b, of h t w la lo] mean_examples(3)
    by (auto simp add: assms(2) la)
  have d: "py_truediv 1 2 = Inr (Finite (1 / 2))" "py_truediv 3 2 = Inr (Finite (3 / 2))"
    using mean_steps(1) [of 1 2] mean_steps(1) [of 3 2] mean_examples(4,5) by simp_all
  have e: "py_round (Finite (1 / 2)) = Inr 0" "py_round (Finite (3 / 2)) = Inr 2"
    by code_simp+
  from A B d e show ?thesis by blast
qed

text \<open>
  The theorem at a concrete input that meets its hypotheses.
\<close>

theorem overall_index_ties_to_even_witness:
  "map id [0, 1 :: int] = [0, 1] \<and> map id [1, 2 :: int] = [1, 2]
   \<and> (\<exists>r. fst (getPrescription id rule_service_module [0, 1 :: int]
          (Finite 90) (Finite 24) (Finite 8) (Finite 14) (Finite 121)) = Inr r
        \<and> resp_overall_severity_index r = 0)
   \<and> (\<exists>r. fst (getPrescription id rule_service_module [1, 2 :: int]
          (Finite 90) (Finite 24) (Finite 8) (Finite 14) (Finite 121)) = Inr r
        \<and> resp_overall_severity_index r = 2)"
proof -
  have h: "map id [0, 1 :: int] = [0, 1]" "map id [1, 2 :: int] = [1, 2]" by simp_all
  from overall_index_ties_to_even [where classify = id, OF h, of "Finite 90" "Finite 24" "Finite 8" "Finite 14" "Finite 121"]
  show ?thesis by simp
qed

end
